theory Spec2Isabelle
  imports Complex_Main "HOL-Library.Multiset"
begin

section \<open>Values and errors\<close>

text \<open>
  The Python exceptions that the modelled code paths can raise. They are values of a sum
  type: \<open>Inl e\<close> is "the call raised \<open>e\<close>", \<open>Inr v\<close> is "the call returned \<open>v\<close>".
\<close>

datatype error = KeyError | ValueError | IndexError | ZeroDivisionError

text \<open>
  A NumPy \<open>float64\<close>. Finite values are mathematical reals (rounding and overflow are not
  modelled, signed zeros are identified); the three special values are kept, because
  NumPy arithmetic never raises: a division by zero yields an infinity or \<open>nan\<close> (with a
  warning only), and \<open>nan\<close> propagates.
\<close>

datatype npfloat = Fin real | PInf | NInf | NaN

fun np_neg :: "npfloat \<Rightarrow> npfloat" where
  "np_neg (Fin x) = Fin (- x)"
| "np_neg PInf = NInf"
| "np_neg NInf = PInf"
| "np_neg NaN = NaN"

fun np_abs :: "npfloat \<Rightarrow> npfloat" where
  "np_abs (Fin x) = Fin \<bar>x\<bar>"
| "np_abs PInf = PInf"
| "np_abs NInf = PInf"
| "np_abs NaN = NaN"

fun np_add :: "npfloat \<Rightarrow> npfloat \<Rightarrow> npfloat" where
  "np_add (Fin x) (Fin y) = Fin (x + y)"
| "np_add NaN b = NaN"
| "np_add a NaN = NaN"
| "np_add PInf NInf = NaN"
| "np_add NInf PInf = NaN"
| "np_add PInf b = PInf"
| "np_add a PInf = PInf"
| "np_add NInf b = NInf"
| "np_add a NInf = NInf"

definition np_sub :: "npfloat \<Rightarrow> npfloat \<Rightarrow> npfloat" where
  "np_sub a b = np_add a (np_neg b)"

fun np_div :: "npfloat \<Rightarrow> npfloat \<Rightarrow> npfloat" where
  "np_div NaN b = NaN"
| "np_div a NaN = NaN"
| "np_div (Fin x) (Fin y) =
     (if y = 0 then (if x = 0 then NaN else if 0 < x then PInf else NInf)
      else Fin (x / y))"
| "np_div (Fin x) b = Fin 0"
| "np_div PInf (Fin y) = (if 0 \<le> y then PInf else NInf)"
| "np_div NInf (Fin y) = (if 0 \<le> y then NInf else PInf)"
| "np_div a b = NaN"

fun np_sq :: "npfloat \<Rightarrow> npfloat" where
  "np_sq (Fin x) = Fin (x * x)"
| "np_sq PInf = PInf"
| "np_sq NInf = PInf"
| "np_sq NaN = NaN"

fun np_sqrt :: "npfloat \<Rightarrow> npfloat" where
  "np_sqrt (Fin x) = (if x < 0 then NaN else Fin (sqrt x))"
| "np_sqrt PInf = PInf"
| "np_sqrt NInf = NaN"
| "np_sqrt NaN = NaN"

text \<open>IEEE comparisons: every comparison with \<open>nan\<close> is false.\<close>

fun np_lt :: "npfloat \<Rightarrow> npfloat \<Rightarrow> bool" where
  "np_lt (Fin x) (Fin y) = (x < y)"
| "np_lt NaN b = False"
| "np_lt a NaN = False"
| "np_lt a NInf = False"
| "np_lt NInf b = True"
| "np_lt PInf b = False"
| "np_lt a PInf = True"

definition np_le :: "npfloat \<Rightarrow> npfloat \<Rightarrow> bool" where
  "np_le a b = (np_lt a b \<or> (a = b \<and> a \<noteq> NaN))"

text \<open>\<open>np.mean(xs)\<close> is the sum divided by the length (\<open>nan\<close> on an empty list).\<close>

definition np_mean :: "npfloat list \<Rightarrow> npfloat" where
  "np_mean xs = np_div (foldl np_add (Fin 0) xs) (Fin (real (length xs)))"

text \<open>\<open>np.std(xs)\<close> is \<open>sqrt(mean(abs(x - mean(xs)) ** 2))\<close>.\<close>

definition np_std :: "npfloat list \<Rightarrow> npfloat" where
  "np_std xs = np_sqrt (np_mean (map (\<lambda>x. np_sq (np_abs (np_sub x (np_mean xs)))) xs))"

text \<open>
  \<open>scipy.stats.norm.cdf\<close>. SciPy is not part of the repository: the standard normal
  distribution function on finite arguments is the parameter \<open>Phi\<close>; on the special values
  it is \<open>cdf(inf) = 1\<close>, \<open>cdf(-inf) = 0\<close>, \<open>cdf(nan) = nan\<close>.
\<close>

fun norm_cdf :: "(real \<Rightarrow> real) \<Rightarrow> npfloat \<Rightarrow> npfloat" where
  "norm_cdf Phi (Fin x) = Fin (Phi x)"
| "norm_cdf Phi PInf = Fin 1"
| "norm_cdf Phi NInf = Fin 0"
| "norm_cdf Phi NaN = NaN"

section \<open>The PPI graph (coverage\_sum.py)\<close>

text \<open>
  The network arrives as an edge list of rows \<open>(gene1, gene2)\<close>;
  \<open>ig.Graph.TupleList(..., directed=False)\<close> numbers the vertices in the order of their
  first appearance. A self-loop counts twice in the degree, a repeated row is a second
  edge.
\<close>

type_synonym edge_list = "(string \<times> string) list"

definition first_occurrences :: "'a list \<Rightarrow> 'a list" where
  "first_occurrences xs = foldl (\<lambda>acc x. if x \<in> set acc then acc else acc @ [x]) [] xs"

definition vertex_names :: "edge_list \<Rightarrow> string list" where
  "vertex_names es = first_occurrences (concat (map (\<lambda>(a, b). [a, b]) es))"

definition degree :: "edge_list \<Rightarrow> string \<Rightarrow> nat" where
  "degree es v = length (filter (\<lambda>(a, b). a = v) es) + length (filter (\<lambda>(a, b). b = v) es)"

definition neighbors :: "edge_list \<Rightarrow> string \<Rightarrow> string list" where
  "neighbors es v =
     map snd (filter (\<lambda>(a, b). a = v) es) @ map fst (filter (\<lambda>(a, b). b = v) es)"

text \<open>
  \<open>Graph.neighborhood(v, order=k)\<close>: the vertices at distance at most \<open>k\<close> from \<open>v\<close>,
  \<open>v\<close> itself included. Only the set of the result is used by the callers.
\<close>

fun neighborhood :: "edge_list \<Rightarrow> string \<Rightarrow> nat \<Rightarrow> string list" where
  "neighborhood es v 0 = [v]"
| "neighborhood es v (Suc k) =
     (let prev = neighborhood es v k
      in first_occurrences (prev @ concat (map (neighbors es) prev)))"

section \<open>compute\_cov\_score\<close>

text \<open>The median of a column: \<open>nan\<close> on no rows, as pandas gives it.\<close>

definition np_median :: "real list \<Rightarrow> npfloat" where
  "np_median xs =
     (let s = sort xs; n = length s
      in if n = 0 then NaN
         else if odd n then Fin (s ! (n div 2))
         else Fin ((s ! (n div 2 - 1) + s ! (n div 2)) / 2))"

text \<open>
  \<open>graph_rank\<close> is a frame indexed by gene with the column \<open>rank\<close>: a list of rows
  \<open>(gene, rank)\<close>. \<open>graph_rank.loc[labels]\<close> raises KeyError when a label has no row and
  otherwise returns the rows of each label, in the order of the labels.
\<close>

type_synonym rank_table = "(string \<times> real) list"

definition rank_loc :: "rank_table \<Rightarrow> string list \<Rightarrow> error + real list" where
  "rank_loc ranks ls =
     (if list_all (\<lambda>l. l \<in> fst ` set ranks) ls
      then Inr (concat (map (\<lambda>l. map snd (filter (\<lambda>(g, r). g = l) ranks)) ls))
      else Inl KeyError)"

definition compute_cov_score ::
  "string list \<Rightarrow> edge_list \<Rightarrow> rank_table \<Rightarrow> nat \<Rightarrow> error + npfloat" where
  "compute_cov_score targets ppi ranks nb_order =
     (if \<not> list_all (\<lambda>t. t \<in> set (vertex_names ppi)) targets then Inl ValueError
      else
        let covered_nodes_overall =
              remdups (concat (map (\<lambda>t. t # neighborhood ppi t nb_order) targets))
        in case rank_loc ranks covered_nodes_overall of
             Inl e \<Rightarrow> Inl e
           | Inr rows \<Rightarrow>
               let inform_rank = np_median rows
               in if length (vertex_names ppi) = 0 then Inl ZeroDivisionError
                  else
                    let coverage_overall =
                          real (length covered_nodes_overall) / real (length (vertex_names ppi))
                    in Inr (np_div (Fin coverage_overall) inform_rank))"

section \<open>Degree binning and random targets\<close>

text \<open>
  \<open>pd.qcut(dist, q=20, labels=range(20))\<close>: the 21 bin edges are the quantiles
  \<open>k/20\<close> of the values (linear interpolation between the two nearest order statistics);
  edges that are not all different raise ValueError; a value belongs to the bin
  \<open>(e\<^sub>i, e\<^sub>i\<^sub>+\<^sub>1]\<close>, the lowest edge included in bin 0.
\<close>

definition quantile_edges :: "real list \<Rightarrow> real list" where
  "quantile_edges s =
     map (\<lambda>k. let p = (length s - 1) * k; i = p div 20; r = p mod 20
              in if r = 0 then s ! i
                 else s ! i + (real r / 20) * (s ! (i + 1) - s ! i))
         [0..<21]"

definition qcut :: "nat list \<Rightarrow> error + nat list" where
  "qcut xs =
     (let edges = quantile_edges (sort (map real xs))
      in if xs = [] \<or> \<not> distinct edges then Inl ValueError
         else Inr (map (\<lambda>x. length (filter (\<lambda>e. e < real x) (tl edges))) xs))"

text \<open>
  \<open>deg_dist\<close>: one row \<open>(name, dist, bin)\<close> per vertex, sorted by degree (lines 42 to 48 of
  \<open>coverage_sum\<close>).
\<close>

type_synonym deg_table = "(string \<times> nat \<times> nat) list"

definition deg_dist_of :: "edge_list \<Rightarrow> error + deg_table" where
  "deg_dist_of ppi =
     (let rows = sort_key snd (map (\<lambda>v. (v, degree ppi v)) (vertex_names ppi))
      in case qcut (map snd rows) of
           Inl e \<Rightarrow> Inl e
         | Inr bins \<Rightarrow> Inr (map (\<lambda>((v, d), b). (v, d, b)) (zip rows bins)))"

text \<open>
  The random source. \<open>candidates.sample(n=freq, replace=False)\<close> is the only random step of
  the scorer; a sampler \<open>smp bin_id candidates freq\<close> stands for one outcome of it, and
  \<open>rnd i\<close> is the sampler of the \<open>i\<close>-th permutation round. A statement for all \<open>rnd\<close>
  holds for every outcome of the random choices.
\<close>

type_synonym sampler = "nat \<Rightarrow> string list \<Rightarrow> nat \<Rightarrow> string list"

fun sample_bins :: "sampler \<Rightarrow> deg_table \<Rightarrow> deg_table \<Rightarrow> nat list \<Rightarrow> error + string list" where
  "sample_bins smp rows dd [] = Inr []"
| "sample_bins smp rows dd (bin_id # bs) =
     (let freq = length (filter (\<lambda>(v, d, b). b = bin_id) rows)
      in if freq = 0 then sample_bins smp rows dd bs
         else
           let candidates = map fst (filter (\<lambda>(v, d, b). b = bin_id) dd)
           in if length candidates < freq then Inl ValueError
              else case sample_bins smp rows dd bs of
                     Inl e \<Rightarrow> Inl e
                   | Inr rest \<Rightarrow> Inr (smp bin_id candidates freq @ rest))"

definition generate_random_targets ::
  "sampler \<Rightarrow> string list \<Rightarrow> deg_table \<Rightarrow> error + string list" where
  "generate_random_targets smp targets dd =
     (if \<not> list_all (\<lambda>t. t \<in> fst ` set dd) targets then Inl KeyError
      else
        let drugNodes = concat (map (\<lambda>t. filter (\<lambda>(v, d, b). v = t) dd) targets)
        in sample_bins smp drugNodes dd [0..<20])"

section \<open>get\_drug\_input\_coverage and coverage\_sum\<close>

fun simulate ::
  "(nat \<Rightarrow> sampler) \<Rightarrow> string list \<Rightarrow> edge_list \<Rightarrow> rank_table \<Rightarrow> deg_table \<Rightarrow> nat \<Rightarrow>
   nat list \<Rightarrow> error + npfloat list" where
  "simulate rnd targets ppi ranks dd nb_order [] = Inr []"
| "simulate rnd targets ppi ranks dd nb_order (i # rounds) =
     (case generate_random_targets (rnd i) targets dd of
        Inl e \<Rightarrow> Inl e
      | Inr random_targets \<Rightarrow>
          (case compute_cov_score random_targets ppi ranks nb_order of
             Inl e \<Rightarrow> Inl e
           | Inr score \<Rightarrow>
               (case simulate rnd targets ppi ranks dd nb_order rounds of
                  Inl e \<Rightarrow> Inl e
                | Inr rest \<Rightarrow> Inr (score # rest))))"

type_synonym target_table = "(string \<times> string) list"

definition resolve_targets :: "string list \<Rightarrow> edge_list \<Rightarrow> target_table \<Rightarrow> string list" where
  "resolve_targets candidate_drugs ppi drug_target_df =
     (let targets = map snd (filter (\<lambda>(drug, gene). drug \<in> set candidate_drugs) drug_target_df)
      in filter (\<lambda>v. v \<in> set targets) (vertex_names ppi))"

definition get_drug_input_coverage ::
  "(real \<Rightarrow> real) \<Rightarrow> (nat \<Rightarrow> sampler) \<Rightarrow> string list \<Rightarrow> edge_list \<Rightarrow> target_table \<Rightarrow>
   rank_table \<Rightarrow> deg_table \<Rightarrow> nat \<Rightarrow> error + (npfloat \<times> npfloat)" where
  "get_drug_input_coverage Phi rnd candidate_drugs ppi drug_target_df ranks dd nb_order =
     (let targets = resolve_targets candidate_drugs ppi drug_target_df
      in case compute_cov_score targets ppi ranks 1 of
           Inl e \<Rightarrow> Inl e
         | Inr observed \<Rightarrow>
             (case simulate rnd targets ppi ranks dd nb_order [0..<100] of
                Inl e \<Rightarrow> Inl e
              | Inr simulated \<Rightarrow>
                  let z_score = np_div (np_sub observed (np_mean simulated)) (np_std simulated)
                  in Inr (z_score, norm_cdf Phi (np_neg (np_abs z_score)))))"

definition coverage_sum ::
  "(real \<Rightarrow> real) \<Rightarrow> (nat \<Rightarrow> sampler) \<Rightarrow> string list \<Rightarrow> target_table \<Rightarrow> edge_list \<Rightarrow>
   rank_table \<Rightarrow> error + (npfloat \<times> npfloat)" where
  "coverage_sum Phi rnd candidate_drugs drug_targets ppi ranks =
     (let drug_target_df = filter (\<lambda>(drug, gene). drug \<in> set candidate_drugs) drug_targets
      in case deg_dist_of ppi of
           Inl e \<Rightarrow> Inl e
         | Inr dd \<Rightarrow>
             get_drug_input_coverage Phi rnd candidate_drugs ppi drug_target_df ranks dd 1)"

section \<open>The fitness evaluator (fitness.py)\<close>

text \<open>
  A distance frame after \<open>__init__\<close>: square, with the same labels on rows and columns.
  \<open>frame.loc[names, names]\<close> raises KeyError when a name is not a label.
\<close>

record frame =
  labels :: "string list"
  cell :: "string \<Rightarrow> string \<Rightarrow> real"

definition frame_loc :: "frame \<Rightarrow> string list \<Rightarrow> error + real list list" where
  "frame_loc df names =
     (if list_all (\<lambda>n. n \<in> set (labels df)) names
      then Inr (map (\<lambda>r. map (\<lambda>c. cell df r c) names) names)
      else Inl KeyError)"

record evaluation_function =
  smiles_distances :: frame
  moa_distances :: frame
  paths_distances :: frame
  ppi_network :: edge_list
  graph_rank :: rank_table
  L1000_drug_targets :: target_table
  drug_names :: "string list"

text \<open>
  The fitness tuple \<open>(smiles, moa, path, coverage p-value, n_drugs)\<close>. An individual is a
  list of booleans; \<open>np.sum\<close> of it counts the set bits.
\<close>

type_synonym fitness = "npfloat \<times> npfloat \<times> npfloat \<times> npfloat \<times> nat"

definition np_sum :: "bool list \<Rightarrow> nat" where
  "np_sum individual = length (filter (\<lambda>bit. bit) individual)"

text \<open>
  \<open>[drug_names[i] for i, bit in enumerate(individual) if bit == 1]\<close>: IndexError when a
  set bit lies beyond the drug names.
\<close>

definition selected_names :: "string list \<Rightarrow> bool list \<Rightarrow> error + string list" where
  "selected_names names individual =
     (if list_ex (\<lambda>bit. bit) (drop (length names) individual) then Inl IndexError
      else Inr (map fst (filter snd (zip names individual))))"

text \<open>\<open>np.triu_indices(n, k)\<close>: the index pairs \<open>(i, j)\<close> with \<open>i + k \<le> j < n\<close>, row by row.\<close>

definition triu_indices :: "nat \<Rightarrow> nat \<Rightarrow> (nat \<times> nat) list" where
  "triu_indices n k = concat (map (\<lambda>i. map (\<lambda>j. (i, j)) [i + k..<n]) [0..<n])"

definition take_at :: "real list list \<Rightarrow> (nat \<times> nat) list \<Rightarrow> npfloat list" where
  "take_at m idx = map (\<lambda>(i, j). Fin (m ! i ! j)) idx"

definition evaluation_call ::
  "(real \<Rightarrow> real) \<Rightarrow> (nat \<Rightarrow> sampler) \<Rightarrow> evaluation_function \<Rightarrow> bool list \<Rightarrow> error + fitness" where
  "evaluation_call Phi rnd self individual =
     (if np_sum individual \<le> 1
      then Inr (Fin 0, Fin 0, Fin 0, Fin 1, length (drug_names self))
      else
        case selected_names (drug_names self) individual of
          Inl e \<Rightarrow> Inl e
        | Inr candidate_drugs \<Rightarrow>
        (case frame_loc (smiles_distances self) candidate_drugs of
          Inl e \<Rightarrow> Inl e
        | Inr smiles_submat \<Rightarrow>
        (case frame_loc (moa_distances self) candidate_drugs of
          Inl e \<Rightarrow> Inl e
        | Inr moa_submat \<Rightarrow>
        (case frame_loc (paths_distances self) candidate_drugs of
          Inl e \<Rightarrow> Inl e
        | Inr paths_submat \<Rightarrow>
        (case coverage_sum Phi rnd candidate_drugs (L1000_drug_targets self)
                (ppi_network self) (graph_rank self) of
          Inl e \<Rightarrow> Inl e
        | Inr (z, coverage_pval) \<Rightarrow>
            let n_drugs = np_sum individual;
                linear_index = triu_indices n_drugs 1
            in Inr (np_mean (take_at smiles_submat linear_index),
                    np_mean (take_at moa_submat linear_index),
                    np_mean (take_at paths_submat linear_index),
                    coverage_pval,
                    n_drugs))))))"

section \<open>Dominance, the archive and the mutation operator\<close>

text \<open>
  An individual of the engine: its bit vector and its fitness, \<open>None\<close> while the fitness is
  not valid.
\<close>

record individual =
  bits :: "bool list"
  fit :: "fitness option"

text \<open>
  Modelled from the spec: \<open>Fitness.dominates\<close> belongs to DEAP, which is not under src/; the
  weights \<open>(1.0, 1.0, 1.0, -1.0, -1.0)\<close> are those of \<open>creator.create\<close> in
  \<open>setup_genetic_algorithm\<close>. "A dominates B iff A is at least as good as B on every
  objective (respecting direction) and strictly better on at least one": the first three
  objectives are maximised, the last two minimised.
\<close>

definition dominates :: "fitness \<Rightarrow> fitness \<Rightarrow> bool" where
  "dominates fa fb =
     (case fa of (a1, a2, a3, a4, a5) \<Rightarrow>
      case fb of (b1, b2, b3, b4, b5) \<Rightarrow>
        (np_le b1 a1 \<and> np_le b2 a2 \<and> np_le b3 a3 \<and> np_le a4 b4 \<and> a5 \<le> b5) \<and>
        (np_lt b1 a1 \<or> np_lt b2 a2 \<or> np_lt b3 a3 \<or> np_lt a4 b4 \<or> a5 < b5))"

definition ind_dominates :: "individual \<Rightarrow> individual \<Rightarrow> bool" where
  "ind_dominates x y =
     (case fit x of None \<Rightarrow> False
      | Some fx \<Rightarrow> (case fit y of None \<Rightarrow> False | Some fy \<Rightarrow> dominates fx fy))"

text \<open>
  Modelled from the spec: \<open>tools.ParetoFront\<close> and its \<open>update\<close> belong to DEAP, which is not
  under src/. "An incoming individual is inserted and any existing member it dominates is
  removed; an incoming individual dominated by an existing member is discarded."
  \<open>update\<close> submits the individuals of a batch one after the other.
\<close>

definition pf_insert :: "individual list \<Rightarrow> individual \<Rightarrow> individual list" where
  "pf_insert hof x =
     (if list_ex (\<lambda>m. ind_dominates m x) hof then hof
      else filter (\<lambda>m. \<not> ind_dominates x m) hof @ [x])"

definition pf_update :: "individual list \<Rightarrow> individual list \<Rightarrow> individual list" where
  "pf_update hof batch = foldl pf_insert hof batch"

definition nondominated :: "individual list \<Rightarrow> bool" where
  "nondominated hof = list_all (\<lambda>x. list_all (\<lambda>y. \<not> ind_dominates x y) hof) hof"

text \<open>
  Modelled from the spec: \<open>tools.mutShuffleIndexes\<close> belongs to DEAP, which is not under
  src/. "Each position independently, with probability \<open>attribute_mutation_prob\<close>, is
  swapped with another randomly chosen position's value." One outcome of the random
  choices is a list of draws, one per position in order: \<open>None\<close> when the position is not
  chosen, \<open>Some j\<close> when its value is swapped with that of position \<open>j\<close>.
\<close>

definition swap_values :: "nat \<Rightarrow> nat \<Rightarrow> 'a list \<Rightarrow> 'a list" where
  "swap_values i j xs = xs[i := xs ! j, j := xs ! i]"

fun shuffle_from :: "nat \<Rightarrow> nat option list \<Rightarrow> 'a list \<Rightarrow> 'a list" where
  "shuffle_from i [] xs = xs"
| "shuffle_from i (None # draws) xs = shuffle_from (Suc i) draws xs"
| "shuffle_from i (Some j # draws) xs = shuffle_from (Suc i) draws (swap_values i j xs)"

definition mutShuffleIndexes :: "nat option list \<Rightarrow> 'a list \<Rightarrow> 'a list" where
  "mutShuffleIndexes draws xs = shuffle_from 0 draws xs"

text \<open>The draws that are outcomes for a vector of length \<open>n\<close>: one per position, each
  naming another position of the vector.\<close>

fun draws_from :: "nat \<Rightarrow> nat \<Rightarrow> nat option list \<Rightarrow> bool" where
  "draws_from n i [] = (i = n)"
| "draws_from n i (None # draws) = (i < n \<and> draws_from n (Suc i) draws)"
| "draws_from n i (Some j # draws) = (i < n \<and> j < n \<and> j \<noteq> i \<and> draws_from n (Suc i) draws)"

section \<open>The parallel map (parmap.py)\<close>

text \<open>
  \<open>ProcessPoolExecutor\<close> is Python's: the constructor raises ValueError unless
  \<open>max_workers\<close> is positive; \<open>executor.map\<close> submits one task per input and yields the
  results in the order of submission, waiting for each. The workers finish in any order:
  \<open>sched\<close> lists the task numbers in the order of completion. A result is \<open>Inl e\<close> when
  the function raised \<open>e\<close> in the worker, and is raised again when it is yielded. A task
  that never completes makes the caller wait for ever: the value \<open>None\<close>.
\<close>

fun complete :: "('a \<Rightarrow> 'b) \<Rightarrow> 'a list \<Rightarrow> nat list \<Rightarrow> (nat \<Rightarrow> 'b option) \<Rightarrow> (nat \<Rightarrow> 'b option)" where
  "complete func inputs [] futures = futures"
| "complete func inputs (t # sched) futures =
     complete func inputs sched
       (if t < length inputs then futures(t \<mapsto> func (inputs ! t)) else futures)"

definition executor_map :: "('a \<Rightarrow> 'b) \<Rightarrow> 'a list \<Rightarrow> nat list \<Rightarrow> 'b option list" where
  "executor_map func inputs sched =
     map (complete func inputs sched (\<lambda>t. None)) [0..<length inputs]"

fun collect :: "(error + 'b) option list \<Rightarrow> 'b list \<Rightarrow> (error + 'b list) option" where
  "collect [] results = Some (Inr results)"
| "collect (None # futures) results = None"
| "collect (Some (Inl e) # futures) results = Some (Inl e)"
| "collect (Some (Inr r) # futures) results = collect futures (results @ [r])"

definition parmap ::
  "('a \<Rightarrow> error + 'b) \<Rightarrow> 'a list \<Rightarrow> int \<Rightarrow> nat list \<Rightarrow> (error + 'b list) option" where
  "parmap func iterable max_workers sched =
     (if max_workers \<le> 0 then Some (Inl ValueError)
      else collect (executor_map func iterable sched) [])"

section \<open>The evolutionary loop (ga.py)\<close>

text \<open>
  \<open>run_genetic_algorithm\<close> receives its operators in the toolbox: the map, the evaluation
  and the selection. \<open>algorithms.varOr\<close> (DEAP's, random) is the parameter \<open>varOr\<close>, which
  gets the generation number for its random choices. The statistics object and the hall of
  fame are optional, as in the source.
\<close>

record toolbox =
  tb_map :: "(individual \<Rightarrow> error + fitness) \<Rightarrow> individual list \<Rightarrow> error + fitness list"
  tb_evaluate :: "individual \<Rightarrow> error + fitness"
  tb_select :: "individual list \<Rightarrow> nat \<Rightarrow> individual list"

record 's log_entry =
  gen :: nat
  nevals :: nat
  stats_record :: "'s option"

text \<open>\<open>for ind, fit in zip(inds, evals): ind.fitness.values = fit\<close>, on the individuals
  themselves.\<close>

definition assign_fitness :: "individual list \<Rightarrow> fitness list \<Rightarrow> individual list" where
  "assign_fitness inds evals =
     map (\<lambda>(ind, f). ind\<lparr>fit := Some f\<rparr>) (zip inds evals) @ drop (length evals) inds"

text \<open>The same assignment seen from the population, whose invalid members are the
  individuals of \<open>invalid_ind\<close>.\<close>

fun assign_invalid :: "individual list \<Rightarrow> fitness list \<Rightarrow> individual list" where
  "assign_invalid [] evals = []"
| "assign_invalid (ind # pop) evals =
     (if fit ind \<noteq> None then ind # assign_invalid pop evals
      else case evals of
             [] \<Rightarrow> ind # pop
           | f # fs \<Rightarrow> ind\<lparr>fit := Some f\<rparr> # assign_invalid pop fs)"

type_synonym 's ga_state = "individual list \<times> individual list option \<times> 's log_entry list"

text \<open>The body of the generational loop, for the generations listed; \<open>invalid_ind\<close> is
  the variable of that name, bound before the loop.\<close>

fun generations ::
  "toolbox \<Rightarrow> (nat \<Rightarrow> individual list \<Rightarrow> nat \<Rightarrow> real \<Rightarrow> real \<Rightarrow> error + individual list) \<Rightarrow>
   real \<Rightarrow> real \<Rightarrow> nat \<Rightarrow> (individual list \<Rightarrow> 's) option \<Rightarrow> individual list \<Rightarrow>
   nat list \<Rightarrow> 's ga_state \<Rightarrow> error + 's ga_state" where
  "generations tb varOr cxpb mutpb noffspring stats invalid_ind [] st = Inr st"
| "generations tb varOr cxpb mutpb noffspring stats invalid_ind (g # gens)
     (population, hall_of_fame, logbook) =
     (case varOr g population noffspring cxpb mutpb of
        Inl e \<Rightarrow> Inl e
      | Inr offspring0 \<Rightarrow>
          (case tb_map tb (tb_evaluate tb) offspring0 of
             Inl e \<Rightarrow> Inl e
           | Inr evals \<Rightarrow>
               let offspring = assign_fitness offspring0 evals;
                   population' = tb_select tb (population @ offspring) (length population);
                   hall_of_fame' = map_option (\<lambda>h. pf_update h offspring) hall_of_fame;
                   record' = map_option (\<lambda>compile. compile population') stats;
                   logbook' = logbook @
                     [\<lparr>gen = g, nevals = length invalid_ind, stats_record = record'\<rparr>]
               in generations tb varOr cxpb mutpb noffspring stats invalid_ind gens
                    (population', hall_of_fame', logbook')))"

definition run_genetic_algorithm ::
  "individual list \<Rightarrow> toolbox \<Rightarrow>
   (nat \<Rightarrow> individual list \<Rightarrow> nat \<Rightarrow> real \<Rightarrow> real \<Rightarrow> error + individual list) \<Rightarrow>
   real \<Rightarrow> real \<Rightarrow> nat \<Rightarrow> nat \<Rightarrow> (individual list \<Rightarrow> 's) option \<Rightarrow>
   individual list option \<Rightarrow> error + 's ga_state" where
  "run_genetic_algorithm population0 tb varOr cxpb mutpb ngen noffspring stats hall_of_fame0 =
     (let invalid_ind = filter (\<lambda>ind. fit ind = None) population0
      in case tb_map tb (tb_evaluate tb) invalid_ind of
           Inl e \<Rightarrow> Inl e
         | Inr evals \<Rightarrow>
             let population = assign_invalid population0 evals;
                 hall_of_fame = map_option (\<lambda>h. pf_update h population) hall_of_fame0;
                 record' = map_option (\<lambda>compile. compile population) stats;
                 logbook = [\<lparr>gen = 0, nevals = length invalid_ind, stats_record = record'\<rparr>]
             in generations tb varOr cxpb mutpb noffspring stats invalid_ind [1..<ngen + 1]
                  (population, hall_of_fame, logbook))"

section \<open>Reference notions and sample inputs\<close>

text \<open>
  The mean the specification asks for, in its own words: "mean over all unordered pairs,
  excluding self-pairs" of the selected drugs. \<open>upper_pairs\<close> lists each unordered pair of
  different positions once.
\<close>

fun upper_pairs :: "'a list \<Rightarrow> ('a \<times> 'a) list" where
  "upper_pairs [] = []"
| "upper_pairs (x # xs) = map (Pair x) xs @ upper_pairs xs"

definition pair_mean :: "frame \<Rightarrow> string list \<Rightarrow> npfloat" where
  "pair_mean df names =
     (let ps = upper_pairs names
      in if ps = [] then NaN
         else Fin (sum_list (map (\<lambda>(a, b). cell df a b) ps) / real (length ps)))"

text \<open>
  The standard normal distribution function, by its power series: the instance of \<open>Phi\<close>
  in the closed statements below.
\<close>

definition std_normal_cdf :: "real \<Rightarrow> real" where
  "std_normal_cdf x =
     1 / 2 + (\<Sum>n. (- 1) ^ n * x ^ (2 * n + 1) / (fact n * 2 ^ n * real (2 * n + 1)))
             / sqrt (2 * pi)"

text \<open>
  A small network: the interaction G1 -- G2 is listed in both directions, G1 -- G3 once, so
  the degrees are 3, 2 and 1 and the 21 quantile edges are all different. Three drugs, the
  third with a target outside the network.
\<close>

definition ex_ppi :: edge_list where
  "ex_ppi = [(''G1'', ''G2''), (''G2'', ''G1''), (''G1'', ''G3'')]"

definition ex_ranks :: rank_table where
  "ex_ranks = [(''G1'', 1), (''G2'', 1), (''G3'', 1)]"

definition ex_targets :: target_table where
  "ex_targets = [(''d1'', ''G1''), (''d2'', ''G2''), (''d3'', ''X9'')]"

definition ex_smiles :: frame where
  "ex_smiles = \<lparr>labels = [''d1'', ''d2'', ''d3''],
     cell = (\<lambda>a b. if a = b then 0
                   else if a = ''d3'' \<or> b = ''d3''
                        then (if a = ''d1'' \<or> b = ''d1'' then 2 / 5 else 3 / 5)
                        else 1 / 5)\<rparr>"

definition ex_moa :: frame where
  "ex_moa = \<lparr>labels = [''d1'', ''d2'', ''d3''], cell = (\<lambda>a b. if a = b then 0 else 1)\<rparr>"

definition ex_paths :: frame where
  "ex_paths = \<lparr>labels = [''d1'', ''d2'', ''d3''], cell = (\<lambda>a b. if a = b then 0 else 2)\<rparr>"

definition ex_eval :: evaluation_function where
  "ex_eval = \<lparr>smiles_distances = ex_smiles, moa_distances = ex_moa,
     paths_distances = ex_paths, ppi_network = ex_ppi, graph_rank = ex_ranks,
     L1000_drug_targets = ex_targets, drug_names = [''d1'', ''d2'', ''d3'']\<rparr>"

text \<open>The sampler that draws the first \<open>freq\<close> candidates of a bin, in every round.\<close>

definition first_sampler :: "nat \<Rightarrow> sampler" where
  "first_sampler i bin_id candidates freq = take freq candidates"

text \<open>
  A toolbox as \<open>setup_genetic_algorithm\<close> registers it: the map is \<open>parmap\<close> with 16
  workers (here the workers finish in reverse order; a run that never returns, which this
  schedule excludes, is shown as an error), the evaluation is the fitness evaluator on
  the sample data. The variation stands for one outcome of \<open>varOr\<close>: copies of the first
  parents, their fitness invalidated.
\<close>

definition pool_map ::
  "(individual \<Rightarrow> error + fitness) \<Rightarrow> individual list \<Rightarrow> error + fitness list" where
  "pool_map f inds =
     (case parmap f inds 16 (rev [0..<length inds]) of Some r \<Rightarrow> r | None \<Rightarrow> Inl ValueError)"

definition ex_toolbox :: toolbox where
  "ex_toolbox = \<lparr>tb_map = pool_map,
     tb_evaluate = (\<lambda>ind. evaluation_call std_normal_cdf first_sampler ex_eval (bits ind)),
     tb_select = (\<lambda>inds k. take k inds)\<rparr>"

definition ex_varOr :: "nat \<Rightarrow> individual list \<Rightarrow> nat \<Rightarrow> real \<Rightarrow> real \<Rightarrow> error + individual list" where
  "ex_varOr g population lambda cxpb mutpb = Inr (map (\<lambda>ind. ind\<lparr>fit := None\<rparr>) (take lambda population))"

definition ex_population :: "individual list" where
  "ex_population = [\<lparr>bits = [False, False, False], fit = None\<rparr>,
                    \<lparr>bits = [True, False, False], fit = None\<rparr>,
                    \<lparr>bits = [False, True, False], fit = None\<rparr>]"

text \<open>
  A second toolbox, whose evaluation orders individuals by their leading set bits, and a
  variation that mutates the first parents by one swap.
\<close>

definition lead_toolbox :: toolbox where
  "lead_toolbox = \<lparr>tb_map = pool_map,
     tb_evaluate = (\<lambda>ind. Inr (Fin (real (length (takeWhile (\<lambda>bit. bit) (bits ind)))), Fin 1, Fin 1,
                               Fin (1 / 2), np_sum (bits ind))),
     tb_select = (\<lambda>inds k. take k inds)\<rparr>"

definition swap_varOr :: "nat \<Rightarrow> individual list \<Rightarrow> nat \<Rightarrow> real \<Rightarrow> real \<Rightarrow> error + individual list" where
  "swap_varOr g population lambda cxpb mutpb =
     Inr (map (\<lambda>ind. \<lparr>bits = mutShuffleIndexes [Some 2, None, None] (bits ind), fit = None\<rparr>)
            (take lambda population))"

definition lead_population :: "individual list" where
  "lead_population = [\<lparr>bits = [False, True, True], fit = None\<rparr>,
                      \<lparr>bits = [True, False, False], fit = None\<rparr>]"

text \<open>
  A path G1 -- G2 -- G3 with a degree table in which the two end nodes share a bin, a
  sampler that draws from the front of the bin in even rounds and from its back in odd
  rounds, and a distribution function that is monotone, non-negative and 1/2 at 0.
\<close>

definition logistic_cdf :: "real \<Rightarrow> real" where
  "logistic_cdf x = 1 / (1 + exp (- x))"

definition path_ppi :: edge_list where
  "path_ppi = [(''G1'', ''G2''), (''G2'', ''G3'')]"

definition path_ranks :: rank_table where
  "path_ranks = [(''G1'', 1), (''G2'', 1), (''G3'', 3)]"

definition path_targets :: target_table where
  "path_targets = [(''d1'', ''G1'')]"

definition path_deg :: deg_table where
  "path_deg = [(''G1'', 1, 0), (''G3'', 1, 0), (''G2'', 2, 19)]"

definition alternating_sampler :: "nat \<Rightarrow> sampler" where
  "alternating_sampler i bin_id candidates freq =
     (if even i then take freq candidates else take freq (rev candidates))"

section \<open>Properties of the fitness evaluator\<close>

subsection \<open>Auxiliary facts\<close>

lemma foldl_np_add_Fin: "foldl np_add (Fin a) (map Fin xs) = Fin (a + sum_list xs)"
  by (induction xs arbitrary: a) (simp_all add: add.assoc)

lemma np_mean_Fin:
  "np_mean (map Fin xs) = (if xs = [] then NaN else Fin (sum_list xs / real (length xs)))"
  by (simp add: np_mean_def foldl_np_add_Fin)

lemma np_mean_Fin_comp:
  "np_mean (map (Fin \<circ> f) xs) =
     (if xs = [] then NaN else Fin (sum_list (map f xs) / real (length xs)))"
  using np_mean_Fin [of "map f xs"] by simp

lemma triu_indices_Suc:
  "triu_indices (Suc n) (Suc 0) =
     map (Pair 0) [Suc 0..<Suc n] @ map (\<lambda>(i, j). (Suc i, Suc j)) (triu_indices n (Suc 0))"
proof -
  have "[0..<Suc n] = 0 # map Suc [0..<n]"
    by (simp add: upt_conv_Cons map_Suc_upt del: upt_Suc)
  moreover have "\<And>i. [Suc i + 1..<Suc n] = map Suc [i + 1..<n]"
    by (simp add: map_Suc_upt del: upt_Suc)
  ultimately show ?thesis
    by (simp add: triu_indices_def map_concat comp_def del: upt_Suc)
qed

lemma upper_pairs_triu:
  "upper_pairs xs = map (\<lambda>(i, j). (xs ! i, xs ! j)) (triu_indices (length xs) 1)"
proof (induction xs)
  case Nil
  show ?case by (simp add: triu_indices_def)
next
  case (Cons x xs)
  have up: "[1..<Suc (length xs)] = map Suc [0..<length xs]"
    by (simp add: map_Suc_upt del: upt_Suc)
  have "map (Pair x) xs = map (Pair x) (map ((!) xs) [0..<length xs])"
    by (simp only: map_nth)
  also have "\<dots> = map (\<lambda>j. (x, (x # xs) ! j)) [1..<Suc (length xs)]"
    unfolding up by (simp add: comp_def)
  finally have first: "map (Pair x) xs = map (\<lambda>j. (x, (x # xs) ! j)) [1..<Suc (length xs)]" .
  have rest: "upper_pairs xs =
      map (\<lambda>(i, j). ((x # xs) ! i, (x # xs) ! j))
        (map (\<lambda>(i, j). (Suc i, Suc j)) (triu_indices (length xs) 1))"
    unfolding Cons.IH by (simp add: comp_def case_prod_unfold)
  show ?case
    using first rest by (simp add: triu_indices_Suc comp_def del: upt_Suc)
qed

lemma triu_indices_bounds: "(i, j) \<in> set (triu_indices n k) \<Longrightarrow> i < n \<and> j < n"
  by (auto simp: triu_indices_def)

lemma take_at_submatrix:
  "take_at (map (\<lambda>r. map (\<lambda>c. cell df r c) cs) cs) (triu_indices (length cs) 1) =
     map Fin (map (\<lambda>(a, b). cell df a b) (upper_pairs cs))"
proof -
  have "\<And>i j. (i, j) \<in> set (triu_indices (length cs) 1) \<Longrightarrow>
      map (\<lambda>r. map (\<lambda>c. cell df r c) cs) cs ! i ! j = cell df (cs ! i) (cs ! j)"
    using triu_indices_bounds by fastforce
  then show ?thesis
    unfolding take_at_def upper_pairs_triu by (auto simp: comp_def)
qed

lemma np_mean_take_at:
  assumes "upper_pairs cs \<noteq> []"
  shows "np_mean (take_at (map (\<lambda>r. map (\<lambda>c. cell df r c) cs) cs)
           (triu_indices (length cs) (Suc 0))) = pair_mean df cs"
  using assms take_at_submatrix [of df cs]
  by (simp add: np_mean_Fin_comp pair_mean_def Let_def)

lemma upper_pairs_nonempty: "2 \<le> length xs \<Longrightarrow> upper_pairs xs \<noteq> []"
  by (cases xs; cases "tl xs") auto

lemma selected_names_length:
  assumes "selected_names names individual = Inr cs"
  shows "length cs = np_sum individual"
proof -
  have tail: "filter (\<lambda>bit. bit) (drop (length names) individual) = []"
    using assms by (auto simp: selected_names_def list_ex_iff filter_empty_conv split: if_splits)
  have cs: "cs = map fst (filter snd (zip names individual))"
    using assms by (auto simp: selected_names_def split: if_splits)
  have "length (filter snd (zip ns bs)) = length (filter (\<lambda>bit. bit) (take (length ns) bs))" for ns :: "string list" and bs
  proof (induction ns arbitrary: bs)
    case Nil show ?case by simp
  next
    case (Cons n ns) then show ?case by (cases bs) auto
  qed
  moreover have "np_sum individual =
      length (filter (\<lambda>bit. bit) (take (length names) individual)) + length (filter (\<lambda>bit. bit) (drop (length names) individual))"
    unfolding np_sum_def by (metis append_take_drop_id filter_append length_append)
  ultimately show ?thesis using tail cs by simp
qed

subsection \<open>The degenerate fitness\<close>

text \<open>
  C1. An individual with no bit or exactly one bit set is evaluated, without an error, to
  the degenerate fitness \<open>(0, 0, 0, 1, D)\<close>, \<open>D\<close> the number of drug names.
\<close>

theorem degenerate_fitness:
  assumes "np_sum individual = 0 \<or> np_sum individual = 1"
  shows "evaluation_call Phi rnd self individual =
           Inr (Fin 0, Fin 0, Fin 0, Fin 1, length (drug_names self))"
  using assms by (auto simp: evaluation_call_def)

theorem degenerate_fitness_witness:
  "np_sum [False, True, False] = 1 \<and>
   evaluation_call std_normal_cdf first_sampler ex_eval [False, True, False] =
     Inr (Fin 0, Fin 0, Fin 0, Fin 1, length (drug_names ex_eval))"
proof -
  have one: "np_sum [False, True, False] = 1" by (simp add: np_sum_def)
  then have "np_sum [False, True, False] = 0 \<or> np_sum [False, True, False] = 1" by simp
  from degenerate_fitness [OF this] one show ?thesis by simp
qed

subsection \<open>The fitness of a combination\<close>

lemma evaluation_call_selected:
  assumes "2 \<le> np_sum individual"
    and "selected_names (drug_names self) individual = Inr cs"
    and "list_all (\<lambda>n. n \<in> set (labels (smiles_distances self))) cs"
    and "list_all (\<lambda>n. n \<in> set (labels (moa_distances self))) cs"
    and "list_all (\<lambda>n. n \<in> set (labels (paths_distances self))) cs"
    and "coverage_sum Phi rnd cs (L1000_drug_targets self) (ppi_network self) (graph_rank self)
           = Inr (z, p)"
  shows "evaluation_call Phi rnd self individual =
           Inr (pair_mean (smiles_distances self) cs,
                pair_mean (moa_distances self) cs,
                pair_mean (paths_distances self) cs,
                p, np_sum individual)
         \<and> np_sum individual = length cs"
proof -
  have n: "np_sum individual = length cs"
    using selected_names_length [OF assms(2)] by simp
  then have ne: "upper_pairs cs \<noteq> []"
    using assms(1) upper_pairs_nonempty by auto
  have "\<not> np_sum individual \<le> 1" using assms(1) by simp
  then show ?thesis
    using assms(2-6) ne
    by (simp add: evaluation_call_def frame_loc_def n np_mean_take_at Let_def)
qed


subsection \<open>Auxiliary facts on the coverage scorer\<close>

lemma rank_loc_Nil: "rank_loc ranks [] = Inr []"
  by (simp add: rank_loc_def)

lemma compute_cov_score_Nil:
  "compute_cov_score [] ppi ranks k =
     (if vertex_names ppi = [] then Inl ZeroDivisionError else Inr NaN)"
  by (simp add: compute_cov_score_def rank_loc_Nil np_median_def)

lemma sample_bins_no_rows: "sample_bins smp [] dd bs = Inr []"
  by (induction bs) simp_all

lemma generate_random_targets_Nil: "generate_random_targets smp [] dd = Inr []"
  by (simp add: generate_random_targets_def sample_bins_no_rows)

lemma simulate_const:
  assumes "\<And>i. i \<in> set rounds \<Longrightarrow> generate_random_targets (rnd i) targets dd = Inr rt"
    and "compute_cov_score rt ppi ranks k = Inr s"
  shows "simulate rnd targets ppi ranks dd k rounds = Inr (replicate (length rounds) s)"
  using assms by (induction rounds) simp_all

lemma foldl_np_add_NaN: "foldl np_add NaN xs = NaN"
  by (induction xs) simp_all

lemma np_mean_replicate_NaN: "np_mean (replicate n NaN) = NaN"
  by (cases n) (simp_all add: np_mean_def foldl_np_add_NaN)

lemma foldl_np_add_replicate:
  "foldl np_add (Fin a) (replicate n (Fin c)) = Fin (a + real n * c)"
  by (induction n arbitrary: a) (simp_all add: algebra_simps)

lemma np_mean_replicate_Fin: "0 < n \<Longrightarrow> np_mean (replicate n (Fin c)) = Fin c"
  by (simp add: np_mean_def foldl_np_add_replicate)

lemma np_std_replicate_Fin: "0 < n \<Longrightarrow> np_std (replicate n (Fin c)) = Fin 0"
  by (simp add: np_std_def np_mean_replicate_Fin np_sub_def)

lemma np_div_zero: "np_div a (Fin 0) = NaN \<or> np_div a (Fin 0) = PInf \<or> np_div a (Fin 0) = NInf"
  by (cases a) simp_all

lemma qcut_error: "qcut xs = Inl e \<Longrightarrow> e = ValueError"
  by (auto simp: qcut_def Let_def split: if_splits)

lemma deg_dist_of_error: "deg_dist_of ppi = Inl e \<Longrightarrow> e = ValueError"
  by (auto simp: deg_dist_of_def Let_def split: sum.splits dest: qcut_error)

lemma deg_dist_of_vertices: "deg_dist_of ppi = Inr dd \<Longrightarrow> vertex_names ppi \<noteq> []"
  by (auto simp: deg_dist_of_def qcut_def Let_def split: sum.splits if_splits)

lemma resolve_targets_disjoint:
  assumes "set (map snd (filter (\<lambda>(drug, gene). drug \<in> set cands) dt)) \<inter> set (vertex_names ppi) = {}"
  shows "resolve_targets cands ppi (filter (\<lambda>(drug, gene). drug \<in> set cands) dt) = []"
  using assms by (auto simp: resolve_targets_def filter_empty_conv)

lemma get_drug_input_coverage_no_targets:
  assumes "resolve_targets cands ppi df = []" and "vertex_names ppi \<noteq> []"
  shows "get_drug_input_coverage Phi rnd cands ppi df ranks dd k = Inr (NaN, NaN)"
proof -
  have score: "compute_cov_score [] ppi ranks k = Inr NaN" for k
    using assms(2) by (simp add: compute_cov_score_Nil)
  have "simulate rnd [] ppi ranks dd k [0..<100] = Inr (replicate (length [0..<100]) NaN)"
    by (rule simulate_const [OF generate_random_targets_Nil score])
  then show ?thesis
    using assms
    by (simp add: get_drug_input_coverage_def compute_cov_score_Nil np_sub_def np_mean_replicate_NaN)
qed

lemma coverage_sum_no_targets:
  assumes "set (map snd (filter (\<lambda>(drug, gene). drug \<in> set cands) dt)) \<inter> set (vertex_names ppi) = {}"
  shows "coverage_sum Phi rnd cands dt ppi ranks =
           (case deg_dist_of ppi of Inl e \<Rightarrow> Inl ValueError | Inr dd \<Rightarrow> Inr (NaN, NaN))"
proof (cases "deg_dist_of ppi")
  case (Inl e)
  then show ?thesis using deg_dist_of_error [OF Inl] by (simp add: coverage_sum_def)
next
  case (Inr dd)
  then show ?thesis
    using get_drug_input_coverage_no_targets [OF resolve_targets_disjoint [OF assms] deg_dist_of_vertices [OF Inr]]
    by (simp add: coverage_sum_def)
qed

lemma get_drug_input_coverage_zero_std:
  assumes "compute_cov_score (resolve_targets cands ppi df) ppi ranks 1 = Inr observed"
    and "simulate rnd (resolve_targets cands ppi df) ppi ranks dd k [0..<100] = Inr simulated"
    and "np_std simulated = Fin 0"
  shows "get_drug_input_coverage Phi rnd cands ppi df ranks dd k =
           Inr (np_div (np_sub observed (np_mean simulated)) (Fin 0),
                norm_cdf Phi (np_neg (np_abs (np_div (np_sub observed (np_mean simulated)) (Fin 0)))))"
  using assms by (simp add: get_drug_input_coverage_def Let_def)

lemma coverage_sum_constant_rounds:
  assumes dd: "deg_dist_of ppi = Inr dd"
    and ts: "resolve_targets cands ppi (filter (\<lambda>(drug, gene). drug \<in> set cands) dt) = ts"
    and obs: "compute_cov_score ts ppi ranks 1 = Inr (Fin c)"
    and rt: "\<And>i. generate_random_targets (rnd i) ts dd = Inr rt"
    and sc: "compute_cov_score rt ppi ranks 1 = Inr (Fin c)"
  shows "coverage_sum Phi rnd cands dt ppi ranks = Inr (NaN, NaN)"
proof -
  let ?df = "filter (\<lambda>(drug, gene). drug \<in> set cands) dt"
  have sim: "simulate rnd (resolve_targets cands ppi ?df) ppi ranks dd 1 [0..<100] =
      Inr (replicate 100 (Fin c))"
    unfolding ts using simulate_const [of "[0..<100]" rnd ts dd rt ppi ranks 1 "Fin c", OF rt sc]
    by simp
  have obs': "compute_cov_score (resolve_targets cands ppi ?df) ppi ranks 1 = Inr (Fin c)"
    unfolding ts by (rule obs)
  have std: "np_std (replicate 100 (Fin c)) = Fin 0"
    by (simp add: np_std_replicate_Fin)
  have "get_drug_input_coverage Phi rnd cands ppi ?df ranks dd 1 = Inr (NaN, NaN)"
    using get_drug_input_coverage_zero_std [OF obs' sim std]
    by (simp add: np_mean_replicate_Fin np_sub_def)
  then show ?thesis
    by (simp add: coverage_sum_def dd)
qed


subsection \<open>The sample network\<close>

lemma ex_vertices: "vertex_names ex_ppi = [''G1'', ''G2'', ''G3'']"
  by code_simp

lemma ex_deg_dist: "deg_dist_of ex_ppi = Inr [(''G3'', 1, 0), (''G2'', 2, 9), (''G1'', 3, 19)]"
  by code_simp

lemma ex_resolve_12: "resolve_targets [''d1'', ''d2''] ex_ppi
    (filter (\<lambda>(drug, gene). drug \<in> set [''d1'', ''d2'']) ex_targets) = [''G1'', ''G2'']"
  by code_simp

lemma ex_score_12: "compute_cov_score [''G1'', ''G2''] ex_ppi ex_ranks 1 = Inr (Fin 1)"
  by code_simp

lemma ex_score_21: "compute_cov_score [''G2'', ''G1''] ex_ppi ex_ranks 1 = Inr (Fin 1)"
  by code_simp

lemma ex_random_12:
  "generate_random_targets (first_sampler i) [''G1'', ''G2'']
     [(''G3'', 1, 0), (''G2'', 2, 9), (''G1'', 3, 19)] = Inr [''G2'', ''G1'']"
  by (simp add: generate_random_targets_def first_sampler_def upt_conv_Cons)

lemma ex_coverage_12:
  "coverage_sum std_normal_cdf first_sampler [''d1'', ''d2''] ex_targets ex_ppi ex_ranks = Inr (NaN, NaN)"
  by (rule coverage_sum_constant_rounds [OF ex_deg_dist ex_resolve_12 ex_score_12 ex_random_12 ex_score_21])


lemma ex_resolve_123: "resolve_targets [''d1'', ''d2'', ''d3''] ex_ppi
    (filter (\<lambda>(drug, gene). drug \<in> set [''d1'', ''d2'', ''d3'']) ex_targets) = [''G1'', ''G2'']"
  by code_simp

lemma ex_coverage_123:
  "coverage_sum std_normal_cdf first_sampler [''d1'', ''d2'', ''d3''] ex_targets ex_ppi ex_ranks
     = Inr (NaN, NaN)"
  by (rule coverage_sum_constant_rounds
        [OF ex_deg_dist ex_resolve_123 ex_score_12 ex_random_12 ex_score_21])

lemma ex_eval_110:
  "evaluation_call std_normal_cdf first_sampler ex_eval [True, True, False] =
     Inr (Fin (1 / 5), Fin 1, Fin 2, NaN, 2)"
proof -
  have n: "2 \<le> np_sum [True, True, False]" by (simp add: np_sum_def)
  have cs: "selected_names (drug_names ex_eval) [True, True, False] = Inr [''d1'', ''d2'']"
    by (simp add: selected_names_def ex_eval_def)
  have cov: "coverage_sum std_normal_cdf first_sampler [''d1'', ''d2'']
      (L1000_drug_targets ex_eval) (ppi_network ex_eval) (graph_rank ex_eval) = Inr (NaN, NaN)"
    using ex_coverage_12 by (simp add: ex_eval_def)
  have "evaluation_call std_normal_cdf first_sampler ex_eval [True, True, False] =
      Inr (pair_mean (smiles_distances ex_eval) [''d1'', ''d2''],
           pair_mean (moa_distances ex_eval) [''d1'', ''d2''],
           pair_mean (paths_distances ex_eval) [''d1'', ''d2''],
           NaN, np_sum [True, True, False])"
    using evaluation_call_selected [OF n cs _ _ _ cov]
    by (simp add: ex_eval_def ex_smiles_def ex_moa_def ex_paths_def)
  then show ?thesis
    by (simp add: pair_mean_def ex_eval_def ex_smiles_def ex_moa_def ex_paths_def np_sum_def)
qed

subsection \<open>The selected-drug count\<close>

text \<open>
  C2, as stated, fails: with no bit set, the fifth component is the number of all drugs
  (3), not the number of set bits (0).
\<close>

theorem n_drugs_counterexample:
  "evaluation_call std_normal_cdf first_sampler ex_eval [False, False, False] =
     Inr (Fin 0, Fin 0, Fin 0, Fin 1, 3) \<and> np_sum [False, False, False] = 0"
  by (simp add: evaluation_call_def np_sum_def ex_eval_def)

text \<open>
  C2, amended. Whenever the evaluator returns a fitness, its fifth component is the number
  of set bits if at least two bits are set, and the number of all drugs otherwise.
\<close>

theorem n_drugs_component:
  assumes "evaluation_call Phi rnd self individual = Inr (f1, f2, f3, f4, n)"
  shows "n = (if np_sum individual \<le> 1 then length (drug_names self) else np_sum individual)"
  using assms
  by (auto simp: evaluation_call_def Let_def split: if_splits sum.splits prod.splits)

theorem n_drugs_component_witness:
  "evaluation_call std_normal_cdf first_sampler ex_eval [True, True, False] =
     Inr (Fin (1 / 5), Fin 1, Fin 2, NaN, 2) \<and>
   (2::nat) = (if np_sum [True, True, False] \<le> 1 then length (drug_names ex_eval)
               else np_sum [True, True, False])"
  using n_drugs_component [OF ex_eval_110] ex_eval_110 by simp

subsection \<open>The means over the selected pairs\<close>

text \<open>
  C3. For an individual with at least two bits set, whose selected names are labels of
  the three distance frames and on whose names the coverage scorer returns \<open>(z, p)\<close>, the
  evaluator returns the three means over the unordered pairs of selected drugs, then \<open>p\<close>,
  then the number of selected drugs.
\<close>

theorem fitness_of_combination:
  assumes "2 \<le> np_sum individual"
    and "selected_names (drug_names self) individual = Inr cs"
    and "list_all (\<lambda>n. n \<in> set (labels (smiles_distances self))) cs"
    and "list_all (\<lambda>n. n \<in> set (labels (moa_distances self))) cs"
    and "list_all (\<lambda>n. n \<in> set (labels (paths_distances self))) cs"
    and "coverage_sum Phi rnd cs (L1000_drug_targets self) (ppi_network self) (graph_rank self)
           = Inr (z, p)"
  shows "evaluation_call Phi rnd self individual =
           Inr (pair_mean (smiles_distances self) cs,
                pair_mean (moa_distances self) cs,
                pair_mean (paths_distances self) cs,
                p, np_sum individual)
         \<and> np_sum individual = length cs"
  using assms by (rule evaluation_call_selected)

theorem fitness_of_combination_witness:
  "2 \<le> np_sum [True, True, True] \<and>
   selected_names (drug_names ex_eval) [True, True, True] = Inr [''d1'', ''d2'', ''d3''] \<and>
   coverage_sum std_normal_cdf first_sampler [''d1'', ''d2'', ''d3'']
     (L1000_drug_targets ex_eval) (ppi_network ex_eval) (graph_rank ex_eval) = Inr (NaN, NaN) \<and>
   evaluation_call std_normal_cdf first_sampler ex_eval [True, True, True] =
     Inr (Fin (2 / 5), Fin 1, Fin 2, NaN, 3)"
proof -
  have n: "2 \<le> np_sum [True, True, True]" by (simp add: np_sum_def)
  have cs: "selected_names (drug_names ex_eval) [True, True, True] = Inr [''d1'', ''d2'', ''d3'']"
    by (simp add: selected_names_def ex_eval_def)
  have cov: "coverage_sum std_normal_cdf first_sampler [''d1'', ''d2'', ''d3'']
      (L1000_drug_targets ex_eval) (ppi_network ex_eval) (graph_rank ex_eval) = Inr (NaN, NaN)"
    using ex_coverage_123 by (simp add: ex_eval_def)
  have l1: "list_all (\<lambda>n. n \<in> set (labels (smiles_distances ex_eval))) [''d1'', ''d2'', ''d3'']"
    by (simp add: ex_eval_def ex_smiles_def)
  have l2: "list_all (\<lambda>n. n \<in> set (labels (moa_distances ex_eval))) [''d1'', ''d2'', ''d3'']"
    by (simp add: ex_eval_def ex_moa_def)
  have l3: "list_all (\<lambda>n. n \<in> set (labels (paths_distances ex_eval))) [''d1'', ''d2'', ''d3'']"
    by (simp add: ex_eval_def ex_paths_def)
  have means: "pair_mean (smiles_distances ex_eval) [''d1'', ''d2'', ''d3''] = Fin (2 / 5)"
    "pair_mean (moa_distances ex_eval) [''d1'', ''d2'', ''d3''] = Fin 1"
    "pair_mean (paths_distances ex_eval) [''d1'', ''d2'', ''d3''] = Fin 2"
    by (simp_all add: pair_mean_def ex_eval_def ex_smiles_def ex_moa_def ex_paths_def)
  have three: "np_sum [True, True, True] = 3" by (simp add: np_sum_def)
  from fitness_of_combination [OF n cs l1 l2 l3 cov] n cs cov means three
  show ?thesis by simp
qed

section \<open>Properties of the coverage scorer\<close>

text \<open>
  C4, as stated, fails: no code path raises a dedicated error. For a candidate whose only
  target lies outside the network the scorer returns the pair \<open>(nan, nan)\<close>.
\<close>

theorem disjoint_targets_counterexample:
  "coverage_sum std_normal_cdf first_sampler [''d3''] ex_targets ex_ppi ex_ranks = Inr (NaN, NaN)"
proof -
  have "set (map snd (filter (\<lambda>(drug, gene). drug \<in> set [''d3'']) ex_targets))
      \<inter> set (vertex_names ex_ppi) = {}"
    by (simp add: ex_vertices ex_targets_def)
  from coverage_sum_no_targets [OF this] show ?thesis
    by (simp add: ex_deg_dist)
qed

text \<open>
  C4, amended. When no resolved target of the candidate drugs is a node of the network,
  the scorer raises nothing of its own: if the degree binning fails, the ValueError of
  \<open>qcut\<close> is raised, and otherwise the scorer returns \<open>(nan, nan)\<close>.
\<close>

theorem disjoint_targets_score:
  assumes "set (map snd (filter (\<lambda>(drug, gene). drug \<in> set cands) dt))
             \<inter> set (vertex_names ppi) = {}"
  shows "coverage_sum Phi rnd cands dt ppi ranks =
           (case deg_dist_of ppi of Inl e \<Rightarrow> Inl ValueError | Inr dd \<Rightarrow> Inr (NaN, NaN))"
  using assms by (rule coverage_sum_no_targets)

theorem disjoint_targets_score_witness:
  "set (map snd (filter (\<lambda>(drug, gene). drug \<in> set [''d3'', ''d9'']) ex_targets))
     \<inter> set (vertex_names ex_ppi) = {} \<and>
   coverage_sum std_normal_cdf first_sampler [''d3'', ''d9''] ex_targets ex_ppi ex_ranks =
     Inr (NaN, NaN)"
proof -
  have d: "set (map snd (filter (\<lambda>(drug, gene). drug \<in> set [''d3'', ''d9'']) ex_targets))
      \<inter> set (vertex_names ex_ppi) = {}"
    by (simp add: ex_vertices ex_targets_def)
  from disjoint_targets_score [OF d] d show ?thesis
    by (simp add: ex_deg_dist)
qed

text \<open>
  C5, as stated, fails: the 100 simulated scores of the sample network are all 1, their
  standard deviation is 0, and the scorer returns \<open>(nan, nan)\<close> instead of raising.
\<close>

theorem zero_std_counterexample:
  "simulate first_sampler [''G1'', ''G2''] ex_ppi ex_ranks
     [(''G3'', 1, 0), (''G2'', 2, 9), (''G1'', 3, 19)] 1 [0..<100] = Inr (replicate 100 (Fin 1)) \<and>
   np_std (replicate 100 (Fin 1)) = Fin 0 \<and>
   coverage_sum std_normal_cdf first_sampler [''d1'', ''d2''] ex_targets ex_ppi ex_ranks =
     Inr (NaN, NaN)"
  using simulate_const [of "[0..<100]" first_sampler, OF ex_random_12 ex_score_21] ex_coverage_12
  by (simp add: np_std_replicate_Fin)

text \<open>
  C5, amended. When the simulated scores have standard deviation zero, the scorer raises
  no error: it divides by zero, so the z-score is \<open>nan\<close> (observed score equal to the
  simulated mean) or an infinity, and the p-value is computed from it.
\<close>

theorem zero_std_score:
  assumes "compute_cov_score (resolve_targets cands ppi df) ppi ranks 1 = Inr observed"
    and "simulate rnd (resolve_targets cands ppi df) ppi ranks dd k [0..<100] = Inr simulated"
    and "np_std simulated = Fin 0"
  shows "\<exists>z. get_drug_input_coverage Phi rnd cands ppi df ranks dd k =
               Inr (z, norm_cdf Phi (np_neg (np_abs z))) \<and>
             z = np_div (np_sub observed (np_mean simulated)) (Fin 0) \<and>
             (z = NaN \<or> z = PInf \<or> z = NInf)"
  using get_drug_input_coverage_zero_std [OF assms] np_div_zero by blast

theorem zero_std_score_witness:
  "compute_cov_score (resolve_targets [''d1'', ''d2''] ex_ppi ex_targets) ex_ppi ex_ranks 1 =
     Inr (Fin 1) \<and>
   simulate first_sampler (resolve_targets [''d1'', ''d2''] ex_ppi ex_targets) ex_ppi ex_ranks
     [(''G3'', 1, 0), (''G2'', 2, 9), (''G1'', 3, 19)] 1 [0..<100] = Inr (replicate 100 (Fin 1)) \<and>
   np_std (replicate 100 (Fin 1)) = Fin 0 \<and>
   get_drug_input_coverage std_normal_cdf first_sampler [''d1'', ''d2''] ex_ppi ex_targets
     ex_ranks [(''G3'', 1, 0), (''G2'', 2, 9), (''G1'', 3, 19)] 1 = Inr (NaN, NaN)"
proof -
  have r: "resolve_targets [''d1'', ''d2''] ex_ppi ex_targets = [''G1'', ''G2'']"
    by code_simp
  have obs: "compute_cov_score (resolve_targets [''d1'', ''d2''] ex_ppi ex_targets) ex_ppi
      ex_ranks 1 = Inr (Fin 1)"
    unfolding r by (rule ex_score_12)
  have sim: "simulate first_sampler (resolve_targets [''d1'', ''d2''] ex_ppi ex_targets) ex_ppi
      ex_ranks [(''G3'', 1, 0), (''G2'', 2, 9), (''G1'', 3, 19)] 1 [0..<100] =
      Inr (replicate 100 (Fin 1))"
    unfolding r
    using simulate_const [of "[0..<100]" first_sampler, OF ex_random_12 ex_score_21] by simp
  have std: "np_std (replicate 100 (Fin 1)) = Fin 0"
    by (simp add: np_std_replicate_Fin)
  from zero_std_score [OF obs sim std, of std_normal_cdf]
  have "get_drug_input_coverage std_normal_cdf first_sampler [''d1'', ''d2''] ex_ppi ex_targets
      ex_ranks [(''G3'', 1, 0), (''G2'', 2, 9), (''G1'', 3, 19)] 1 = Inr (NaN, NaN)"
    by (auto simp: np_mean_replicate_Fin np_sub_def)
  with obs sim std show ?thesis by blast
qed

subsection \<open>The p-value\<close>

lemma simulate_map:
  assumes "\<And>i. i \<in> set rounds \<Longrightarrow> generate_random_targets (rnd i) targets dd = Inr (rt i)"
    and "\<And>i. i \<in> set rounds \<Longrightarrow> compute_cov_score (rt i) ppi ranks k = Inr (s i)"
  shows "simulate rnd targets ppi ranks dd k rounds = Inr (map s rounds)"
  using assms by (induction rounds) simp_all

lemma get_drug_input_coverage_pvalue:
  "get_drug_input_coverage Phi rnd cands ppi df ranks dd k = Inr (z, p) \<Longrightarrow>
     p = norm_cdf Phi (np_neg (np_abs z))"
  by (auto simp: get_drug_input_coverage_def Let_def split: sum.splits)

lemma coverage_sum_pvalue:
  "coverage_sum Phi rnd cands dt ppi ranks = Inr (z, p) \<Longrightarrow>
     p = norm_cdf Phi (np_neg (np_abs z))"
  by (auto simp: coverage_sum_def Let_def split: sum.splits dest: get_drug_input_coverage_pvalue)

lemma norm_cdf_tail:
  assumes "mono Phi" and "Phi 0 = 1 / 2" and "\<forall>x. 0 \<le> Phi x" and "z \<noteq> NaN"
  shows "\<exists>v. norm_cdf Phi (np_neg (np_abs z)) = Fin v \<and> 0 \<le> v \<and> v \<le> 1 / 2"
proof (cases z)
  case (Fin x)
  have "Phi (- \<bar>x\<bar>) \<le> Phi 0" using assms(1) by (simp add: monoD)
  then show ?thesis using Fin assms(2,3) by simp
qed (use assms(4) in simp_all)

lemma alternating_sum:
  "sum_list (map (\<lambda>i. if even i then a else b) [0..<2 * m]) = real m * (a + b)"
  by (induction m) (simp_all add: algebra_simps)

lemma logistic_mono: "mono logistic_cdf"
  by (auto simp: mono_def logistic_cdf_def intro!: divide_left_mono add_pos_pos mult_pos_pos)

lemma path_resolve: "resolve_targets [''d1''] path_ppi path_targets = [''G1'']"
  by code_simp

lemma path_score_1: "compute_cov_score [''G1''] path_ppi path_ranks 1 = Inr (Fin (2 / 3))"
  by code_simp

lemma path_score_3: "compute_cov_score [''G3''] path_ppi path_ranks 1 = Inr (Fin (1 / 3))"
  by code_simp

lemma path_random:
  "generate_random_targets (alternating_sampler i) [''G1''] path_deg =
     Inr (if even i then [''G1''] else [''G3''])"
  by (simp add: generate_random_targets_def alternating_sampler_def path_deg_def upt_conv_Cons)

lemma path_simulate:
  "simulate alternating_sampler [''G1''] path_ppi path_ranks path_deg 1 [0..<100] =
     Inr (map (\<lambda>i. Fin (if even i then 2 / 3 else 1 / 3)) [0..<100])"
  by (rule simulate_map [where rt = "\<lambda>i. if even i then [''G1''] else [''G3'']"])
     (simp_all add: path_random path_score_1 [unfolded One_nat_def]
        path_score_3 [unfolded One_nat_def])

lemma path_mean:
  "np_mean (map (\<lambda>i. Fin (if even i then 2 / 3 else 1 / 3)) [0..<100]) = Fin (1 / 2)"
proof -
  have "sum_list (map (\<lambda>i. if even i then 2 / 3 else 1 / 3 :: real) [0..<2 * 50]) = 50"
    by (simp only: alternating_sum) simp
  then have "sum_list (map (\<lambda>i. if even i then 2 / 3 else 1 / 3 :: real) [0..<100]) = 50"
    by simp
  then show ?thesis
    using np_mean_Fin [of "map (\<lambda>i. if even i then 2 / 3 else 1 / 3) [0..<100]"]
    by (simp add: comp_def)
qed

lemma path_std:
  "np_std (map (\<lambda>i. Fin (if even i then 2 / 3 else 1 / 3)) [0..<100]) = Fin (1 / 6)"
proof -
  have sq: "map (\<lambda>x. np_sq (np_abs (np_sub x (Fin (1 / 2)))))
              (map (\<lambda>i. Fin (if even i then 2 / 3 else 1 / 3)) [0..<100]) =
            replicate 100 (Fin (1 / 36))"
  proof -
    have pt: "np_sq (np_abs (np_sub (Fin (if even i then 2 / 3 else 1 / 3)) (Fin (1 / 2)))) =
        Fin (1 / 36)" for i :: nat
      by (simp add: np_sub_def)
    show ?thesis
      by (simp only: map_map comp_def pt map_replicate_const length_upt) simp
  qed
  have rt: "sqrt (1 / 36) = 1 / 6"
    by (rule real_sqrt_unique) (simp_all add: power2_eq_square)
  show ?thesis
    unfolding np_std_def path_mean sq
    by (simp add: np_mean_replicate_Fin rt)
qed

lemma path_coverage:
  "get_drug_input_coverage logistic_cdf alternating_sampler [''d1''] path_ppi path_targets
     path_ranks path_deg 1 = Inr (Fin 1, Fin (logistic_cdf (- 1)))"
  unfolding get_drug_input_coverage_def Let_def path_resolve
  by (simp add: path_score_1 [unfolded One_nat_def] path_simulate [unfolded One_nat_def]
      path_mean path_std np_sub_def del: upt_Suc)


lemma ex_resolve_1: "resolve_targets [''d1''] ex_ppi
    (filter (\<lambda>(drug, gene). drug \<in> set [''d1'']) ex_targets) = [''G1'']"
  by code_simp

lemma ex_score_1: "compute_cov_score [''G1''] ex_ppi ex_ranks 1 = Inr (Fin 1)"
  by code_simp

lemma ex_random_1:
  "generate_random_targets (first_sampler i) [''G1'']
     [(''G3'', 1, 0), (''G2'', 2, 9), (''G1'', 3, 19)] = Inr [''G1'']"
  by (simp add: generate_random_targets_def first_sampler_def upt_conv_Cons)

text \<open>
  C10, as stated, fails: on the sample network the scorer returns the p-value \<open>nan\<close>,
  which is neither between 0 and 1/2 nor below the sentinel 1 (every comparison with
  \<open>nan\<close> is false).
\<close>

theorem pvalue_counterexample:
  "coverage_sum std_normal_cdf first_sampler [''d1''] ex_targets ex_ppi ex_ranks = Inr (NaN, NaN) \<and>
   \<not> np_le (Fin 0) NaN \<and> \<not> np_le NaN (Fin (1 / 2)) \<and> \<not> np_lt NaN (Fin 1)"
  using coverage_sum_constant_rounds [OF ex_deg_dist ex_resolve_1 ex_score_1 ex_random_1 ex_score_1]
  by (simp add: np_le_def)

text \<open>
  C10, amended. Whenever the scorer returns \<open>(z, p)\<close>, \<open>p\<close> is \<open>norm.cdf(-|z|)\<close>; if
  \<open>z\<close> is \<open>nan\<close> so is \<open>p\<close>; and if \<open>z\<close> is not \<open>nan\<close>, \<open>p\<close> is a finite number between 0
  and 1/2, for every distribution function that is monotone, non-negative and 1/2 at 0, as
  the standard normal one is.
\<close>

theorem pvalue_range:
  assumes "coverage_sum Phi rnd cands dt ppi ranks = Inr (z, p) \<or>
           get_drug_input_coverage Phi rnd cands ppi df ranks dd k = Inr (z, p)"
    and "mono Phi" and "Phi 0 = 1 / 2" and "\<forall>x. 0 \<le> Phi x"
  shows "p = norm_cdf Phi (np_neg (np_abs z)) \<and>
         (z = NaN \<longrightarrow> p = NaN) \<and>
         (z \<noteq> NaN \<longrightarrow> (\<exists>v. p = Fin v \<and> 0 \<le> v \<and> v \<le> 1 / 2))"
proof -
  have p: "p = norm_cdf Phi (np_neg (np_abs z))"
    using assms(1) coverage_sum_pvalue get_drug_input_coverage_pvalue by blast
  moreover have "z = NaN \<longrightarrow> p = NaN" using p by simp
  moreover have "z \<noteq> NaN \<longrightarrow> (\<exists>v. p = Fin v \<and> 0 \<le> v \<and> v \<le> 1 / 2)"
    using p norm_cdf_tail [OF assms(2-4)] by simp
  ultimately show ?thesis by blast
qed

theorem pvalue_range_witness:
  "get_drug_input_coverage logistic_cdf alternating_sampler [''d1''] path_ppi path_targets
     path_ranks path_deg 1 = Inr (Fin 1, Fin (logistic_cdf (- 1))) \<and>
   mono logistic_cdf \<and> logistic_cdf 0 = 1 / 2 \<and> (\<forall>x. 0 \<le> logistic_cdf x) \<and>
   0 \<le> logistic_cdf (- 1) \<and> logistic_cdf (- 1) \<le> 1 / 2"
proof -
  have z: "logistic_cdf 0 = 1 / 2" by (simp add: logistic_cdf_def)
  have n: "\<forall>x. 0 \<le> logistic_cdf x"
    by (auto simp: logistic_cdf_def intro!: divide_nonneg_nonneg add_nonneg_nonneg)
  have r: "coverage_sum logistic_cdf alternating_sampler [''d1''] path_targets path_ppi path_ranks
             = Inr (Fin 1, Fin (logistic_cdf (- 1))) \<or>
           get_drug_input_coverage logistic_cdf alternating_sampler [''d1''] path_ppi path_targets
             path_ranks path_deg 1 = Inr (Fin 1, Fin (logistic_cdf (- 1)))"
    using path_coverage by simp
  from pvalue_range [OF r logistic_mono z n] path_coverage logistic_mono z n
  show ?thesis by simp
qed

section \<open>Properties of the evolutionary loop\<close>

text \<open>
  C6. The record of generation \<open>g \<ge> 1\<close> should report the number of individuals
  evaluated in that generation. The loop logs \<open>len(invalid_ind)\<close>, a list bound before
  the loop and never rebound: with three unevaluated individuals at the start and one
  offspring per generation, every record reports 3 evaluations.
\<close>

theorem stale_nevals_example:
  "map_sum id (\<lambda>(population, hof, logbook). map (\<lambda>e. (gen e, nevals e)) logbook)
     (run_genetic_algorithm ex_population ex_toolbox ex_varOr (7 / 10) (3 / 10) 2 1
        (None :: (individual list \<Rightarrow> unit) option) (Some []))
   = Inr [(0, 3), (1, 3), (2, 3)]"
  by (simp add: run_genetic_algorithm_def ex_population_def ex_toolbox_def ex_varOr_def
      pool_map_def parmap_def executor_map_def evaluation_call_def np_sum_def
      assign_fitness_def Let_def upt_conv_Cons)

text \<open>
  The same holds for every run that returns: each record of the log, of whatever
  generation, carries the number of individuals that were invalid before the loop.
\<close>

lemma generations_nevals:
  assumes "generations tb varOr cxpb mutpb noffspring stats invalid_ind gens
             (population, hof, logbook) = Inr (population', hof', logbook')"
    and "list_all (\<lambda>e. nevals e = length invalid_ind) logbook"
  shows "list_all (\<lambda>e. nevals e = length invalid_ind) logbook'"
  using assms
proof (induction gens arbitrary: population hof logbook)
  case Nil
  then show ?case by simp
next
  case (Cons g gens)
  from Cons.prems(1) obtain population1 hof1 record1 where
    step: "generations tb varOr cxpb mutpb noffspring stats invalid_ind gens
       (population1, hof1,
        logbook @ [\<lparr>gen = g, nevals = length invalid_ind, stats_record = record1\<rparr>])
       = Inr (population', hof', logbook')"
    by (auto simp: Let_def split: sum.splits)
  have "list_all (\<lambda>e. nevals e = length invalid_ind)
      (logbook @ [\<lparr>gen = g, nevals = length invalid_ind, stats_record = record1\<rparr>])"
    using Cons.prems(2) by simp
  from Cons.IH [OF step this] show ?case .
qed

lemma run_nevals:
  assumes "run_genetic_algorithm population0 tb varOr cxpb mutpb ngen noffspring stats hof0
             = Inr (population, hof, logbook)"
  shows "list_all (\<lambda>e. nevals e = length (filter (\<lambda>ind. fit ind = None) population0)) logbook"
proof -
  from assms obtain population1 hof1 record1 where
    "generations tb varOr cxpb mutpb noffspring stats
        (filter (\<lambda>ind. fit ind = None) population0) [1..<ngen + 1]
        (population1, hof1,
         [\<lparr>gen = 0, nevals = length (filter (\<lambda>ind. fit ind = None) population0),
           stats_record = record1\<rparr>])
      = Inr (population, hof, logbook)"
    by (auto simp: run_genetic_algorithm_def Let_def split: sum.splits)
  from generations_nevals [OF this] show ?thesis by simp
qed

subsection \<open>The non-dominated archive\<close>

lemma np_lt_irrefl: "\<not> np_lt a a"
  by (cases a) simp_all

lemma dominates_irrefl: "\<not> dominates f f"
  by (auto simp: dominates_def np_lt_irrefl split: prod.splits)

lemma ind_dominates_irrefl: "\<not> ind_dominates x x"
  by (simp add: ind_dominates_def dominates_irrefl split: option.splits)

lemma nondominated_iff:
  "nondominated hof = (\<forall>x\<in>set hof. \<forall>y\<in>set hof. \<not> ind_dominates x y)"
  by (simp add: nondominated_def list_all_iff)

lemma pf_insert_nondominated: "nondominated hof \<Longrightarrow> nondominated (pf_insert hof x)"
  by (auto simp: pf_insert_def nondominated_iff list_ex_iff ind_dominates_irrefl)

lemma pf_update_nondominated: "nondominated hof \<Longrightarrow> nondominated (pf_update hof batch)"
  unfolding pf_update_def
  by (induction batch arbitrary: hof) (simp_all add: pf_insert_nondominated)

lemma generations_archive:
  assumes "generations tb varOr cxpb mutpb noffspring stats invalid_ind gens (population, hof, logbook)
             = Inr (population', hof', logbook')"
    and "case_option True nondominated hof"
  shows "case_option True nondominated hof'"
  using assms
proof (induction gens arbitrary: population hof logbook)
  case Nil
  then show ?case by simp
next
  case (Cons g gens)
  from Cons.prems(1) obtain offspring0 evals where
    step: "generations tb varOr cxpb mutpb noffspring stats invalid_ind gens
       (tb_select tb (population @ assign_fitness offspring0 evals) (length population),
        map_option (\<lambda>h. pf_update h (assign_fitness offspring0 evals)) hof,
        logbook @ [\<lparr>gen = g, nevals = length invalid_ind,
          stats_record = map_option (\<lambda>compile. compile
            (tb_select tb (population @ assign_fitness offspring0 evals) (length population))) stats\<rparr>])
       = Inr (population', hof', logbook')"
    by (auto simp: Let_def split: sum.splits)
  have "case_option True nondominated
      (map_option (\<lambda>h. pf_update h (assign_fitness offspring0 evals)) hof)"
    using Cons.prems(2) by (cases hof) (simp_all add: pf_update_nondominated)
  from Cons.IH [OF step this] show ?case .
qed

lemma run_archive:
  assumes "run_genetic_algorithm population0 tb varOr cxpb mutpb ngen noffspring stats (Some h0)
             = Inr (population, Some hof, logbook)"
    and "nondominated h0"
  shows "nondominated hof"
proof -
  from assms(1) obtain evals where
    "generations tb varOr cxpb mutpb noffspring stats
        (filter (\<lambda>ind. fit ind = None) population0) [1..<ngen + 1]
        (assign_invalid population0 evals, Some (pf_update h0 (assign_invalid population0 evals)),
         [\<lparr>gen = 0, nevals = length (filter (\<lambda>ind. fit ind = None) population0),
           stats_record = map_option (\<lambda>compile. compile (assign_invalid population0 evals)) stats\<rparr>])
      = Inr (population, Some hof, logbook)"
    by (auto simp: run_genetic_algorithm_def Let_def split: sum.splits)
  from generations_archive [OF this] assms(2) show ?thesis
    by (simp add: pf_update_nondominated)
qed


lemma lead_run:
  "run_genetic_algorithm lead_population lead_toolbox swap_varOr (7 / 10) (3 / 10) 1 1
        (None :: (individual list \<Rightarrow> unit) option) (Some [])
   = Inr ([\<lparr>bits = [False, True, True], fit = Some (Fin 0, Fin 1, Fin 1, Fin (1 / 2), 2)\<rparr>,
           \<lparr>bits = [True, False, False], fit = Some (Fin 1, Fin 1, Fin 1, Fin (1 / 2), 1)\<rparr>],
          Some [\<lparr>bits = [True, False, False], fit = Some (Fin 1, Fin 1, Fin 1, Fin (1 / 2), 1)\<rparr>,
                \<lparr>bits = [True, True, False], fit = Some (Fin 2, Fin 1, Fin 1, Fin (1 / 2), 2)\<rparr>],
          [\<lparr>gen = 0, nevals = 2, stats_record = None\<rparr>,
           \<lparr>gen = 1, nevals = 2, stats_record = None\<rparr>])"
  by (simp add: run_genetic_algorithm_def lead_population_def lead_toolbox_def swap_varOr_def
      pool_map_def parmap_def executor_map_def np_sum_def mutShuffleIndexes_def swap_values_def
      assign_fitness_def pf_update_def pf_insert_def ind_dominates_def dominates_def np_le_def
      Let_def upt_conv_Cons)

text \<open>
  C7. Started from a non-dominated archive (the empty one of \<open>setup_genetic_algorithm\<close>),
  the archive returned after any number of generations holds no member dominating
  another; each single submission keeps that invariant; an incoming individual dominated
  by a member is discarded; and otherwise it is inserted and every member it dominates
  is removed.
\<close>

theorem archive_invariant:
  "(nondominated h0 \<and>
    run_genetic_algorithm population0 tb varOr cxpb mutpb ngen noffspring stats (Some h0)
      = Inr (population, Some hof, logbook)
    \<longrightarrow> (\<forall>x\<in>set hof. \<forall>y\<in>set hof. \<not> ind_dominates x y)) \<and>
   ((\<forall>x\<in>set h1. \<forall>y\<in>set h1. \<not> ind_dominates x y)
    \<longrightarrow> (\<forall>x\<in>set (pf_insert h1 x1). \<forall>y\<in>set (pf_insert h1 x1). \<not> ind_dominates x y)) \<and>
   (list_ex (\<lambda>m. ind_dominates m x2) h2 \<longrightarrow> pf_insert h2 x2 = h2) \<and>
   (\<not> list_ex (\<lambda>m. ind_dominates m x3) h3
    \<longrightarrow> x3 \<in> set (pf_insert h3 x3) \<and>
        (\<forall>m\<in>set h3. ind_dominates x3 m \<longrightarrow> m \<notin> set (pf_insert h3 x3)))"
proof (intro conjI impI)
  assume "nondominated h0 \<and>
    run_genetic_algorithm population0 tb varOr cxpb mutpb ngen noffspring stats (Some h0)
      = Inr (population, Some hof, logbook)"
  then have "nondominated hof" using run_archive by blast
  then show "\<forall>x\<in>set hof. \<forall>y\<in>set hof. \<not> ind_dominates x y"
    by (simp add: nondominated_iff)
next
  assume "\<forall>x\<in>set h1. \<forall>y\<in>set h1. \<not> ind_dominates x y"
  then have "nondominated (pf_insert h1 x1)"
    by (intro pf_insert_nondominated) (simp add: nondominated_iff)
  then show "\<forall>x\<in>set (pf_insert h1 x1). \<forall>y\<in>set (pf_insert h1 x1). \<not> ind_dominates x y"
    by (simp add: nondominated_iff)
next
  assume "list_ex (\<lambda>m. ind_dominates m x2) h2"
  then show "pf_insert h2 x2 = h2" by (simp add: pf_insert_def)
next
  assume "\<not> list_ex (\<lambda>m. ind_dominates m x3) h3"
  then show "x3 \<in> set (pf_insert h3 x3)" by (simp add: pf_insert_def)
next
  assume "\<not> list_ex (\<lambda>m. ind_dominates m x3) h3"
  then show "\<forall>m\<in>set h3. ind_dominates x3 m \<longrightarrow> m \<notin> set (pf_insert h3 x3)"
    by (auto simp: pf_insert_def ind_dominates_irrefl)
qed

theorem archive_invariant_witness:
  "nondominated [] \<and>
   run_genetic_algorithm lead_population lead_toolbox swap_varOr (7 / 10) (3 / 10) 1 1
        (None :: (individual list \<Rightarrow> unit) option) (Some [])
   = Inr ([\<lparr>bits = [False, True, True], fit = Some (Fin 0, Fin 1, Fin 1, Fin (1 / 2), 2)\<rparr>,
           \<lparr>bits = [True, False, False], fit = Some (Fin 1, Fin 1, Fin 1, Fin (1 / 2), 1)\<rparr>],
          Some [\<lparr>bits = [True, False, False], fit = Some (Fin 1, Fin 1, Fin 1, Fin (1 / 2), 1)\<rparr>,
                \<lparr>bits = [True, True, False], fit = Some (Fin 2, Fin 1, Fin 1, Fin (1 / 2), 2)\<rparr>],
          [\<lparr>gen = 0, nevals = 2, stats_record = None\<rparr>,
           \<lparr>gen = 1, nevals = 2, stats_record = None\<rparr>]) \<and>
   \<not> ind_dominates \<lparr>bits = [True, False, False], fit = Some (Fin 1, Fin 1, Fin 1, Fin (1 / 2), 1)\<rparr>
        \<lparr>bits = [True, True, False], fit = Some (Fin 2, Fin 1, Fin 1, Fin (1 / 2), 2)\<rparr> \<and>
   \<not> ind_dominates \<lparr>bits = [True, True, False], fit = Some (Fin 2, Fin 1, Fin 1, Fin (1 / 2), 2)\<rparr>
        \<lparr>bits = [True, False, False], fit = Some (Fin 1, Fin 1, Fin 1, Fin (1 / 2), 1)\<rparr> \<and>
   pf_insert [\<lparr>bits = [True, False, False], fit = Some (Fin 1, Fin 1, Fin 1, Fin (1 / 2), 1)\<rparr>]
        \<lparr>bits = [False, True, True], fit = Some (Fin 0, Fin 1, Fin 1, Fin (1 / 2), 2)\<rparr>
     = [\<lparr>bits = [True, False, False], fit = Some (Fin 1, Fin 1, Fin 1, Fin (1 / 2), 1)\<rparr>] \<and>
   \<lparr>bits = [False, True, True], fit = Some (Fin 0, Fin 1, Fin 1, Fin (1 / 2), 2)\<rparr>
     \<notin> set (pf_insert [\<lparr>bits = [False, True, True], fit = Some (Fin 0, Fin 1, Fin 1, Fin (1 / 2), 2)\<rparr>]
        \<lparr>bits = [True, False, False], fit = Some (Fin 1, Fin 1, Fin 1, Fin (1 / 2), 1)\<rparr>)"
proof -
  let ?p = "\<lparr>bits = [False, True, True], fit = Some (Fin 0, Fin 1, Fin 1, Fin (1 / 2), 2)\<rparr>"
  let ?q = "\<lparr>bits = [True, False, False], fit = Some (Fin 1, Fin 1, Fin 1, Fin (1 / 2), 1)\<rparr>"
  have e: "nondominated []" by (simp add: nondominated_def)
  have qp: "ind_dominates ?q ?p" by (simp add: ind_dominates_def dominates_def np_le_def)
  have pq: "\<not> ind_dominates ?p ?q" by (simp add: ind_dominates_def dominates_def np_le_def)
  from archive_invariant [where ?h0.0 = "[]" and ?population0.0 = lead_population and tb = lead_toolbox
      and varOr = swap_varOr and cxpb = "7 / 10" and mutpb = "3 / 10" and ngen = 1 and noffspring = 1
      and stats = "None :: (individual list \<Rightarrow> unit) option"
      and ?h2.0 = "[?q]" and ?x2.0 = ?p and ?h3.0 = "[?p]" and ?x3.0 = ?q
      and ?h1.0 = "[]" and ?x1.0 = ?p]
    e qp pq lead_run
  show ?thesis by simp
qed

section \<open>Properties of the parallel map\<close>

lemma complete_at:
  "complete func inputs sched futures t =
     (if t \<in> set sched \<and> t < length inputs then Some (func (inputs ! t)) else futures t)"
  by (induction sched arbitrary: futures) auto

lemma executor_map_all:
  assumes "set [0..<length inputs] \<subseteq> set sched"
  shows "executor_map func inputs sched = map (\<lambda>x. Some (func x)) inputs"
proof -
  have "map (complete func inputs sched (\<lambda>t. None)) [0..<length inputs] =
        map (\<lambda>t. Some (func (inputs ! t))) [0..<length inputs]"
    using assms by (auto simp: complete_at)
  also have "\<dots> = map (\<lambda>x. Some (func x)) (map ((!) inputs) [0..<length inputs])"
    by (simp add: comp_def)
  finally show ?thesis by (simp add: executor_map_def map_nth)
qed

lemma collect_pure:
  "collect (map (\<lambda>x. Some (Inr (g x))) xs) results = Some (Inr (results @ map g xs))"
  by (induction xs arbitrary: results) simp_all

lemma parmap_pure:
  assumes "0 < max_workers" and "set [0..<length inputs] \<subseteq> set sched"
  shows "parmap (\<lambda>x. Inr (g x)) inputs max_workers sched = Some (Inr (map g inputs))"
  using assms by (simp add: parmap_def executor_map_all collect_pure)

text \<open>
  C8. For a positive pool size, a pure function \<open>f\<close>, and any order of completion in
  which every task completes, \<open>parmap\<close> returns the sequential map of \<open>f\<close> over the inputs:
  same length, and the \<open>i\<close>-th output is \<open>f\<close> of the \<open>i\<close>-th input.
\<close>

theorem parmap_order_preserving:
  assumes "0 < max_workers" and "set [0..<length inputs] \<subseteq> set sched"
  shows "parmap (\<lambda>x. Inr (f x)) inputs max_workers sched = Some (Inr (map f inputs)) \<and>
         length (map f inputs) = length inputs \<and>
         (\<forall>i<length inputs. map f inputs ! i = f (inputs ! i))"
  using parmap_pure [OF assms] by simp

theorem parmap_order_preserving_witness:
  "(0::int) < 16 \<and> set [0..<length [1, 2, 3 :: nat]] \<subseteq> set [2, 0, 1 :: nat] \<and>
   parmap (\<lambda>x. Inr (x * x)) [1, 2, 3 :: nat] 16 [2, 0, 1] = Some (Inr [1, 4, 9])"
proof -
  have w: "(0::int) < 16" by simp
  have s: "set [0..<length [1, 2, 3 :: nat]] \<subseteq> set [2, 0, 1 :: nat]" by (simp add: upt_conv_Cons)
  from parmap_order_preserving [OF w s, of "\<lambda>x. x * x"] w s show ?thesis by simp
qed

section \<open>Properties of the mutation operator\<close>

lemma np_sum_mset: "np_sum xs = size (filter_mset (\<lambda>bit. bit) (mset xs))"
  by (simp add: np_sum_def flip: mset_filter)

lemma mset_swap_values:
  "i < length xs \<Longrightarrow> j < length xs \<Longrightarrow> mset (swap_values i j xs) = mset xs"
  unfolding swap_values_def by (rule mset_swap [of j xs i])

lemma shuffle_from_mset:
  "draws_from (length xs) i draws \<Longrightarrow> mset (shuffle_from i draws xs) = mset xs"
proof (induction i draws xs rule: shuffle_from.induct)
  case (1 i xs)
  show ?case by simp
next
  case (2 i draws xs)
  then show ?case by simp
next
  case (3 i j draws xs)
  have len: "length (swap_values i j xs) = length xs" by (simp add: swap_values_def)
  from 3 show ?case by (simp add: len mset_swap_values)
qed

lemma mutation_keeps_bits:
  assumes "draws_from (length individual) 0 draws"
  shows "np_sum (mutShuffleIndexes draws individual) = np_sum individual \<and>
         mset (mutShuffleIndexes draws individual) = mset individual \<and>
         length (mutShuffleIndexes draws individual) = length individual"
proof -
  have m: "mset (mutShuffleIndexes draws individual) = mset individual"
    using assms by (simp add: mutShuffleIndexes_def shuffle_from_mset)
  then show ?thesis
    by (metis np_sum_mset size_mset)
qed

text \<open>
  C9. For every individual and every outcome of the random draws, the shuffle mutation
  returns a permutation of the bit vector: the number of set bits, the multiset of bits
  and the length are unchanged.
\<close>

theorem mutation_preserves_count:
  assumes "draws_from (length individual) 0 draws"
  shows "np_sum (mutShuffleIndexes draws individual) = np_sum individual \<and>
         mset (mutShuffleIndexes draws individual) = mset individual \<and>
         length (mutShuffleIndexes draws individual) = length individual"
  using assms by (rule mutation_keeps_bits)

theorem mutation_preserves_count_witness:
  "draws_from (length [False, True, True]) 0 [Some 2, None, Some 1] \<and>
   mutShuffleIndexes [Some 2, None, Some 1] [False, True, True] = [True, False, True] \<and>
   np_sum [True, False, True] = np_sum [False, True, True]"
proof -
  have d: "draws_from (length [False, True, True]) 0 [Some 2, None, Some 1]" by simp
  have m: "mutShuffleIndexes [Some 2, None, Some 1] [False, True, True] = [True, False, True]"
    by (simp add: mutShuffleIndexes_def swap_values_def)
  from mutation_preserves_count [OF d] d m show ?thesis by simp
qed

end
